theory Spec2Isabelle
  imports Complex_Main "HOL-Library.Word"
begin

section \<open>Data model\<close>

text \<open>
  \<^verbatim>\<open>interface NonogramCell { filled: boolean; color: string; }\<close>
\<close>

record NonogramCell =
  filled :: bool
  color :: string

type_synonym grid = "NonogramCell list list"

text \<open>
  Reading a property of \<^verbatim>\<open>undefined\<close> (an out-of-range array element, or the first
  row of an empty grid) raises a TypeError, which aborts the whole call.
\<close>

datatype error = TypeError

section \<open>Clue derivation: \<^verbatim>\<open>calculateNumbers\<close>\<close>

subsection \<open>Row scan\<close>

text \<open>
  The body of \<^verbatim>\<open>row.forEach((cell, index) => ...)\<close>: one step on the pair
  (\<^verbatim>\<open>numbers\<close>, \<^verbatim>\<open>currentCount\<close>). The argument \<open>len\<close> is \<^verbatim>\<open>row.length\<close>; the test
  \<^verbatim>\<open>index === row.length - 1\<close> is taken over the integers, since \<^verbatim>\<open>row.length - 1\<close>
  is \<open>-1\<close> for an empty row. The counters are array lengths at most, so the
  doubles of the source are exact and are modelled by natural numbers.
\<close>

definition scan_step :: "nat \<Rightarrow> nat \<Rightarrow> bool \<Rightarrow> nat list \<times> nat \<Rightarrow> nat list \<times> nat" where
  "scan_step len index is_filled st =
     (case st of (numbers, currentCount) \<Rightarrow>
        if is_filled then
          (let currentCount = currentCount + 1 in
             if int index = int len - 1 then (numbers @ [currentCount], currentCount)
             else (numbers, currentCount))
        else if currentCount > 0 then (numbers @ [currentCount], 0)
        else (numbers, currentCount))"

fun row_scan :: "nat \<Rightarrow> nat \<Rightarrow> NonogramCell list \<Rightarrow> nat list \<times> nat \<Rightarrow> nat list \<times> nat" where
  "row_scan len index [] st = st"
| "row_scan len index (cell # cells) st =
     row_scan len (index + 1) cells (scan_step len index (filled cell) st)"

text \<open>\<^verbatim>\<open>return numbers.length ? numbers : [0]\<close>\<close>

definition finish :: "nat list \<times> nat \<Rightarrow> nat list" where
  "finish st = (if length (fst st) \<noteq> 0 then fst st else [0])"

definition rowClue :: "NonogramCell list \<Rightarrow> nat list" where
  "rowClue row = finish (row_scan (length row) 0 row ([], 0))"

definition rowNums :: "grid \<Rightarrow> nat list list" where
  "rowNums grid = map rowClue grid"

subsection \<open>Column scan\<close>

text \<open>
  \<^verbatim>\<open>grid.forEach((row, rowIndex) => { if (row[colIndex].filled) ... })\<close>: the same
  step, on the cell \<^verbatim>\<open>row[colIndex]\<close>. When \<^verbatim>\<open>colIndex\<close> is out of range for a row,
  \<^verbatim>\<open>row[colIndex]\<close> is \<^verbatim>\<open>undefined\<close> and reading \<^verbatim>\<open>.filled\<close> raises.
\<close>

fun col_scan :: "nat \<Rightarrow> nat \<Rightarrow> nat \<Rightarrow> grid \<Rightarrow> nat list \<times> nat \<Rightarrow> error + nat list \<times> nat" where
  "col_scan colIndex len rowIndex [] st = Inr st"
| "col_scan colIndex len rowIndex (row # rows) st =
     (if colIndex < length row
      then col_scan colIndex len (rowIndex + 1) rows
             (scan_step len rowIndex (filled (row ! colIndex)) st)
      else Inl TypeError)"

definition colClue :: "grid \<Rightarrow> nat \<Rightarrow> error + nat list" where
  "colClue grid colIndex =
     (case col_scan colIndex (length grid) 0 grid ([], 0) of
        Inl e \<Rightarrow> Inl e
      | Inr st \<Rightarrow> Inr (finish st))"

text \<open>\<^verbatim>\<open>.map\<close> with a callback that may raise: the first exception aborts the map.\<close>

fun map_raising :: "('a \<Rightarrow> error + 'b) \<Rightarrow> 'a list \<Rightarrow> error + 'b list" where
  "map_raising f [] = Inr []"
| "map_raising f (x # xs) =
     (case f x of
        Inl e \<Rightarrow> Inl e
      | Inr y \<Rightarrow> (case map_raising f xs of Inl e \<Rightarrow> Inl e | Inr ys \<Rightarrow> Inr (y # ys)))"

text \<open>
  \<^verbatim>\<open>Array(grid[0].length).fill(0).map((_, colIndex) => ...)\<close>: on an empty grid
  \<^verbatim>\<open>grid[0]\<close> is \<^verbatim>\<open>undefined\<close> and \<^verbatim>\<open>.length\<close> raises.
\<close>

definition colNums :: "grid \<Rightarrow> error + nat list list" where
  "colNums grid =
     (case grid of
        [] \<Rightarrow> Inl TypeError
      | row0 # _ \<Rightarrow> map_raising (colClue grid) [0..<length row0])"

text \<open>
  The whole function: the values handed to \<^verbatim>\<open>setRowNumbers\<close> and
  \<^verbatim>\<open>setColumnNumbers\<close>, or the exception raised before either setter runs.
\<close>

definition calculateNumbers :: "grid \<Rightarrow> error + nat list list \<times> nat list list" where
  "calculateNumbers grid =
     (let row_nums = rowNums grid in
        case colNums grid of
          Inl e \<Rightarrow> Inl e
        | Inr col_nums \<Rightarrow> Inr (row_nums, col_nums))"

subsection \<open>What the specification says\<close>

text \<open>
  The precondition of the clue deriver: the grid has a row, and every row is as
  long as the first one.
\<close>

definition rectangular :: "grid \<Rightarrow> bool" where
  "rectangular grid \<longleftrightarrow> grid \<noteq> [] \<and> (\<forall>row \<in> set grid. length row = length (hd grid))"

text \<open>
  The lengths of the maximal runs of consecutive filled cells of a line, in
  reading order: skip unfilled cells; at a filled cell, the run is that cell and
  the longest stretch of filled cells after it, and the scan goes on after the
  stretch.
\<close>

function run_lengths :: "bool list \<Rightarrow> nat list" where
  "run_lengths [] = []"
| "run_lengths (False # bs) = run_lengths bs"
| "run_lengths (True # bs) =
     Suc (length (takeWhile (\<lambda>b. b) bs)) # run_lengths (dropWhile (\<lambda>b. b) bs)"
  by pat_completeness auto
termination
  by (relation "measure length") (auto simp: length_dropWhile_le le_imp_less_Suc)

text \<open>The \<open>j\<close>-th column of a grid, top to bottom.\<close>

definition column :: "grid \<Rightarrow> nat \<Rightarrow> NonogramCell list" where
  "column grid j = map (\<lambda>row. row ! j) grid"

subsection \<open>The scan as a function of the carried count\<close>

text \<open>
  The output of a scan that is entered with \<open>c\<close> filled cells already counted:
  an unfilled cell closes the open run, the end of the line closes it as well.
  The proofs relate \<open>row_scan\<close> to this function by induction.
\<close>

fun runs_acc :: "nat \<Rightarrow> bool list \<Rightarrow> nat list" where
  "runs_acc c [] = (if c > 0 then [c] else [])"
| "runs_acc c (True # bs) = runs_acc (Suc c) bs"
| "runs_acc c (False # bs) = (if c > 0 then c # runs_acc 0 bs else runs_acc 0 bs)"

section \<open>Quantization: \<^verbatim>\<open>generateNonogram\<close>\<close>

text \<open>
  The canvas calls (\<^verbatim>\<open>fillRect\<close>, \<^verbatim>\<open>drawImage\<close>, \<^verbatim>\<open>getImageData\<close>) belong to the
  browser. Their outcome, \<^verbatim>\<open>imageData.data\<close>, is a parameter of the model: an array
  of bytes (a \<^verbatim>\<open>Uint8ClampedArray\<close>), four per pixel, which \<^verbatim>\<open>getImageData(0, 0,
  columns, rows)\<close> returns with length \<open>4 * columns * rows\<close>.

  Reading the array out of range gives \<^verbatim>\<open>undefined\<close>, here \<open>None\<close>.
\<close>

definition data_at :: "8 word list \<Rightarrow> nat \<Rightarrow> nat option" where
  "data_at d i = (if i < length d then Some (unat (d ! i)) else None)"

text \<open>
  \<^verbatim>\<open>(data[i] + data[i + 1] + data[i + 2]) / 3\<close>. The sum of three bytes is at most
  765 and the quotient is compared with 128 only, so the double of the source
  and the real number of the model give the same comparison. An \<^verbatim>\<open>undefined\<close>
  operand makes the result \<^verbatim>\<open>NaN\<close>, here \<open>None\<close>.
\<close>

definition brightness :: "8 word list \<Rightarrow> nat \<Rightarrow> real option" where
  "brightness d i =
     (case (data_at d i, data_at d (i + 1), data_at d (i + 2)) of
        (Some r, Some g, Some b) \<Rightarrow> Some ((real r + real g + real b) / 3)
      | _ \<Rightarrow> None)"

text \<open>\<^verbatim>\<open>brightness < 128\<close>; every comparison with \<^verbatim>\<open>NaN\<close> is false.\<close>

definition below_128 :: "real option \<Rightarrow> bool" where
  "below_128 v = (case v of Some r \<Rightarrow> r < 128 | None \<Rightarrow> False)"

text \<open>The decimal numeral of a number, as a template string prints it.\<close>

fun decimal :: "nat \<Rightarrow> string" where
  "decimal n =
     (if n < 10 then [''0123456789'' ! n]
      else decimal (n div 10) @ [''0123456789'' ! (n mod 10)])"

declare decimal.simps [simp del]

definition template_value :: "nat option \<Rightarrow> string" where
  "template_value v = (case v of Some n \<Rightarrow> decimal n | None \<Rightarrow> ''undefined'')"

text \<open>
  The cell pushed for the pixel whose bytes start at index \<open>i\<close>:
  \<^verbatim>\<open>{ filled: brightness < 128, color: `rgb(${data[i]}, ${data[i + 1]}, ${data[i + 2]})` }\<close>
\<close>

definition pixel_cell :: "8 word list \<Rightarrow> nat \<Rightarrow> NonogramCell" where
  "pixel_cell d i =
     \<lparr>filled = below_128 (brightness d i),
      color = ''rgb('' @ template_value (data_at d i) @ '', '' @
              template_value (data_at d (i + 1)) @ '', '' @
              template_value (data_at d (i + 2)) @ '')''\<rparr>"

text \<open>\<^verbatim>\<open>for (let x = 0; x < columns; x++) { const i = (y * columns + x) * 4; row.push(...) }\<close>\<close>

function x_loop :: "8 word list \<Rightarrow> nat \<Rightarrow> nat \<Rightarrow> nat \<Rightarrow> NonogramCell list \<Rightarrow> NonogramCell list" where
  "x_loop d columns y x row =
     (if x < columns
      then x_loop d columns y (x + 1) (row @ [pixel_cell d ((y * columns + x) * 4)])
      else row)"
  by pat_completeness auto
termination
  by (relation "measure (\<lambda>(d, columns, y, x, row). columns - x)") auto

declare x_loop.simps [simp del]

text \<open>\<^verbatim>\<open>for (let y = 0; y < rows; y++) { const row = []; ...; grid.push(row) }\<close>\<close>

function y_loop :: "8 word list \<Rightarrow> nat \<Rightarrow> nat \<Rightarrow> nat \<Rightarrow> grid \<Rightarrow> grid" where
  "y_loop d columns rows y grid =
     (if y < rows
      then y_loop d columns rows (y + 1) (grid @ [x_loop d columns y 0 []])
      else grid)"
  by pat_completeness auto
termination
  by (relation "measure (\<lambda>(d, columns, rows, y, grid). rows - y)") auto

declare y_loop.simps [simp del]

text \<open>
  The function itself. Its first argument is \<open>None\<close> when \<^verbatim>\<open>canvasRef.current\<close> or
  its 2d context is null (then nothing happens), and otherwise the bytes that
  \<^verbatim>\<open>getImageData\<close> returned. The result is the grid handed to \<^verbatim>\<open>setNonogramGrid\<close>
  together with the outcome of \<^verbatim>\<open>calculateNumbers(grid)\<close>.
\<close>

definition generateNonogram ::
  "8 word list option \<Rightarrow> nat \<Rightarrow> nat \<Rightarrow> (grid \<times> (error + nat list list \<times> nat list list)) option" where
  "generateNonogram ctx columns rows =
     (case ctx of
        None \<Rightarrow> None
      | Some d \<Rightarrow>
          (let grid = y_loop d columns rows 0 [] in Some (grid, calculateNumbers grid)))"

section \<open>The component state and its handlers\<close>

text \<open>
  A JavaScript number that is an integer, or one that is not finite (\<^verbatim>\<open>NaN\<close>,
  \<^verbatim>\<open>Infinity\<close>).
\<close>

datatype number = Num int | NonFinite

record AppState =
  image :: "string option"
  columns :: number
  rows :: number

text \<open>\<^verbatim>\<open>useState(null)\<close>, \<^verbatim>\<open>useState(15)\<close>, \<^verbatim>\<open>useState(15)\<close>\<close>

definition initial :: AppState where
  "initial = \<lparr>image = None, columns = Num 15, rows = Num 15\<rparr>"

text \<open>
  The \<^verbatim>\<open>onChange\<close> handlers of the two inputs. The argument is the value of
  \<^verbatim>\<open>parseInt(e.target.value)\<close>, \<open>None\<close> for \<^verbatim>\<open>NaN\<close>:
  \<^verbatim>\<open>if (!isNaN(value) && value > 0) setColumns(Math.max(5, Math.min(50, value)))\<close>
\<close>

definition columns_onChange :: "AppState \<Rightarrow> int option \<Rightarrow> AppState" where
  "columns_onChange st v =
     (case v of
        Some value \<Rightarrow> if value > 0 then st\<lparr>columns := Num (max 5 (min 50 value))\<rparr> else st
      | None \<Rightarrow> st)"

definition rows_onChange :: "AppState \<Rightarrow> int option \<Rightarrow> AppState" where
  "rows_onChange st v =
     (case v of
        Some value \<Rightarrow> if value > 0 then st\<lparr>rows := Num (max 5 (min 50 value))\<rparr> else st
      | None \<Rightarrow> st)"

text \<open>
  \<^verbatim>\<open>Math.round(columns * (img.height / img.width))\<close>, computed over the reals
  (\<^verbatim>\<open>Math.round\<close> rounds half up). A zero width makes the quotient \<^verbatim>\<open>Infinity\<close> or
  \<^verbatim>\<open>NaN\<close>, and so the product and its rounding.
\<close>

definition aspect_rows :: "number \<Rightarrow> nat \<Rightarrow> nat \<Rightarrow> number" where
  "aspect_rows c width height =
     (case c of
        NonFinite \<Rightarrow> NonFinite
      | Num k \<Rightarrow>
          if width = 0 then NonFinite
          else Num \<lfloor>real_of_int k * (real height / real width) + 1 / 2\<rfloor>)"

text \<open>
  An upload whose file has been read and decoded (\<^verbatim>\<open>handleImageUpload\<close>, with its
  \<^verbatim>\<open>reader.onload\<close> and \<^verbatim>\<open>img.onload\<close>): \<^verbatim>\<open>setImage(url)\<close>, and
  \<^verbatim>\<open>if (!image) setRows(Math.round(columns * aspectRatio))\<close>.
\<close>

definition handleImageUpload :: "AppState \<Rightarrow> string \<Rightarrow> nat \<Rightarrow> nat \<Rightarrow> AppState" where
  "handleImageUpload st url width height =
     st\<lparr>image := Some url,
        rows := (if image st = None then aspect_rows (columns st) width height else rows st)\<rparr>"

text \<open>
  The effect that follows every change of \<^verbatim>\<open>columns\<close>, \<^verbatim>\<open>rows\<close> or \<^verbatim>\<open>image\<close>:
  \<^verbatim>\<open>if (image) { ...; img.onload = () => generateNonogram(img) }\<close>. The result is the
  pair (\<^verbatim>\<open>columns\<close>, \<^verbatim>\<open>rows\<close>) that this quantization run works with.
\<close>

definition effect_dimensions :: "AppState \<Rightarrow> (number \<times> number) option" where
  "effect_dimensions st = (if image st \<noteq> None then Some (columns st, rows st) else None)"

definition in_range :: "number \<Rightarrow> bool" where
  "in_range n = (case n of Num k \<Rightarrow> 5 \<le> k \<and> k \<le> 50 | NonFinite \<Rightarrow> False)"

section \<open>The scan and the run lengths\<close>

lemma runs_acc_run_lengths:
  "runs_acc c bs = (if c = 0 then run_lengths bs
                    else (c + length (takeWhile (\<lambda>b. b) bs)) # run_lengths (dropWhile (\<lambda>b. b) bs))"
  by (induction c bs rule: runs_acc.induct) auto

lemma row_scan_runs_acc:
  "cells \<noteq> [] \<Longrightarrow> index + length cells = len \<Longrightarrow>
   fst (row_scan len index cells (numbers, cnt)) = numbers @ runs_acc cnt (map filled cells)"
proof (induction cells arbitrary: index numbers cnt)
  case Nil
  then show ?case by simp
next
  case (Cons cell cells)
  show ?case
  proof (cases cells)
    case Nil
    with Cons.prems show ?thesis by (auto simp: scan_step_def Let_def)
  next
    case (Cons a list)
    then have ne: "cells \<noteq> []" by simp
    from Cons.prems have len: "(index + 1) + length cells = len" by simp
    from Cons ne Cons.prems have notlast: "int index \<noteq> int len - 1" by auto
    show ?thesis
      using Cons.IH[OF ne len] notlast
      by (auto simp: scan_step_def Let_def)
  qed
qed

lemma rowClue_run_lengths:
  "rowClue row = (if run_lengths (map filled row) = [] then [0] else run_lengths (map filled row))"
proof (cases row)
  case Nil
  then show ?thesis by (simp add: rowClue_def finish_def)
next
  case (Cons a list)
  then have "fst (row_scan (length row) 0 row ([], 0)) = run_lengths (map filled row)"
    using row_scan_runs_acc[of row 0 "length row" "[]" 0]
    by (simp add: runs_acc_run_lengths)
  then show ?thesis by (simp add: rowClue_def finish_def)
qed

lemma rowClue_runs_acc:
  "rowClue row = (if runs_acc 0 (map filled row) = [] then [0] else runs_acc 0 (map filled row))"
proof (cases row)
  case Nil
  then show ?thesis by (simp add: rowClue_def finish_def)
next
  case (Cons a list)
  then have "fst (row_scan (length row) 0 row ([], 0)) = runs_acc 0 (map filled row)"
    using row_scan_runs_acc[of row 0 "length row" "[]" 0] by simp
  then show ?thesis by (simp add: rowClue_def finish_def)
qed

lemma runs_acc_pos: "n \<in> set (runs_acc c bs) \<Longrightarrow> 0 < n"
  by (induction c bs rule: runs_acc.induct) (auto split: if_splits)

lemma runs_acc_Nil_iff: "runs_acc c bs = [] \<longleftrightarrow> c = 0 \<and> True \<notin> set bs"
  by (induction c bs rule: runs_acc.induct) auto

lemma sum_runs_acc: "sum_list (runs_acc c bs) = c + length (filter (\<lambda>b. b) bs)"
  by (induction c bs rule: runs_acc.induct) auto

lemma runs_acc_fit: "sum_list (runs_acc c bs) + length (runs_acc c bs) \<le> c + length bs + 1"
  by (induction c bs rule: runs_acc.induct) auto

lemma rowClue_nonempty: "rowClue row \<noteq> []"
  by (simp add: rowClue_runs_acc)

lemma rowClue_unfilled: "\<forall>cell \<in> set row. \<not> filled cell \<Longrightarrow> rowClue row = [0]"
  by (auto simp: rowClue_runs_acc runs_acc_Nil_iff)

lemma rowClue_filled_pos:
  "\<exists>cell \<in> set row. filled cell \<Longrightarrow> n \<in> set (rowClue row) \<Longrightarrow> 0 < n"
  by (auto simp: rowClue_runs_acc runs_acc_Nil_iff runs_acc_pos split: if_splits)

lemma sum_rowClue: "sum_list (rowClue row) = length (filter filled row)"
  using sum_runs_acc[of 0 "map filled row"] runs_acc_Nil_iff[of 0 "map filled row"]
  by (auto simp: rowClue_runs_acc filter_map comp_def filter_empty_conv)

lemma rowClue_fit:
  "int (sum_list (rowClue row)) + (int (length (rowClue row)) - 1) \<le> int (length row)"
  using runs_acc_fit[of 0 "map filled row"] by (auto simp: rowClue_runs_acc)

lemma col_scan_row_scan:
  "\<forall>row \<in> set rest. colIndex < length row \<Longrightarrow>
   col_scan colIndex len rowIndex rest st = Inr (row_scan len rowIndex (column rest colIndex) st)"
  by (induction rest arbitrary: rowIndex st) (auto simp: column_def)

lemma colClue_rowClue:
  "\<forall>row \<in> set grid. colIndex < length row \<Longrightarrow>
   colClue grid colIndex = Inr (rowClue (column grid colIndex))"
  by (simp add: colClue_def rowClue_def col_scan_row_scan) (simp add: column_def)

lemma map_raising_Inr:
  "\<forall>x \<in> set xs. f x = Inr (g x) \<Longrightarrow> map_raising f xs = Inr (map g xs)"
  by (induction xs) auto

lemma colNums_rectangular:
  assumes "rectangular grid"
  shows "colNums grid = Inr (map (\<lambda>j. rowClue (column grid j)) [0..<length (hd grid)])"
proof -
  from assms obtain row0 rest where g: "grid = row0 # rest"
    by (cases grid) (auto simp: rectangular_def)
  have "\<forall>j \<in> set [0..<length row0]. colClue grid j = Inr (rowClue (column grid j))"
    using assms g by (auto simp: rectangular_def intro!: colClue_rowClue)
  then show ?thesis using g by (simp add: colNums_def map_raising_Inr)
qed

lemma calculateNumbers_rectangular:
  "rectangular grid \<Longrightarrow>
   calculateNumbers grid =
     Inr (map rowClue grid, map (\<lambda>j. rowClue (column grid j)) [0..<length (hd grid)])"
  by (simp add: calculateNumbers_def colNums_rectangular rowNums_def)

section \<open>The loops of the quantizer\<close>

lemma x_loop_map:
  "x_loop d ncols y x row =
     row @ map (\<lambda>x. pixel_cell d ((y * ncols + x) * 4)) [x..<ncols]"
proof (induction d ncols y x row rule: x_loop.induct)
  case (1 d ncols y x row)
  show ?case
  proof (cases "x < ncols")
    case True
    with 1 show ?thesis by (subst x_loop.simps) (simp add: upt_conv_Cons)
  next
    case False
    then show ?thesis by (subst x_loop.simps) simp
  qed
qed

lemma y_loop_map:
  "y_loop d ncols nrows y grid =
     grid @ map (\<lambda>y. x_loop d ncols y 0 []) [y..<nrows]"
proof (induction d ncols nrows y grid rule: y_loop.induct)
  case (1 d ncols nrows y grid)
  show ?case
  proof (cases "y < nrows")
    case True
    with 1 show ?thesis by (subst y_loop.simps) (simp add: upt_conv_Cons)
  next
    case False
    then show ?thesis by (subst y_loop.simps) simp
  qed
qed

lemma grid_eq:
  "y_loop d ncols nrows 0 [] =
     map (\<lambda>y. map (\<lambda>x. pixel_cell d ((y * ncols + x) * 4)) [0..<ncols]) [0..<nrows]"
  by (simp only: y_loop_map x_loop_map append_Nil)

section \<open>The clue deriver\<close>

lemma rowClue_cases:
  "rowClue row =
     (if \<exists>cell \<in> set row. filled cell then run_lengths (map filled row) else [0])"
proof -
  have "run_lengths (map filled row) = [] \<longleftrightarrow> \<not> (\<exists>cell \<in> set row. filled cell)"
    using runs_acc_run_lengths[of 0 "map filled row"] runs_acc_Nil_iff[of 0 "map filled row"]
    by auto
  then show ?thesis by (simp add: rowClue_run_lengths)
qed

lemma length_column: "length (column grid j) = length grid"
  by (simp add: column_def)

text \<open>
  C1 (as amended). For every non-empty rectangular grid and every row with at
  least one filled cell, the row's clue sequence is the ordered list of the
  lengths of its maximal runs of consecutive filled cells, scanned left to right
  (so a run that ends at the final cell is flushed with its full count); a row
  with no filled cell has the clue sequence \<open>[0]\<close>.
\<close>

theorem row_clues_are_run_lengths:
  assumes "rectangular grid" and "i < length grid"
  shows "\<exists>rs cs. calculateNumbers grid = Inr (rs, cs) \<and>
           rs ! i = (if \<exists>cell \<in> set (grid ! i). filled cell
                     then run_lengths (map filled (grid ! i)) else [0])"
proof -
  have c: "calculateNumbers grid =
      Inr (map rowClue grid, map (\<lambda>j. rowClue (column grid j)) [0..<length (hd grid)])"
    using assms(1) by (rule calculateNumbers_rectangular)
  have "map rowClue grid ! i = rowClue (grid ! i)"
    using assms(2) by simp
  also have "\<dots> = (if \<exists>cell \<in> set (grid ! i). filled cell
                     then run_lengths (map filled (grid ! i)) else [0])"
    by (rule rowClue_cases)
  finally show ?thesis using c by blast
qed

text \<open>Scenario D: a single all-filled row of length 4 has the row clue \<open>[4]\<close>.\<close>

theorem row_clues_are_run_lengths_witness:
  "rectangular [replicate 4 \<lparr>filled = True, color = ''rgb(0, 0, 0)''\<rparr>] \<and>
   (0::nat) < length [replicate 4 \<lparr>filled = True, color = ''rgb(0, 0, 0)''\<rparr>] \<and>
   (\<exists>rs cs. calculateNumbers [replicate 4 \<lparr>filled = True, color = ''rgb(0, 0, 0)''\<rparr>] = Inr (rs, cs) \<and>
      rs ! 0 = [4])"
proof -
  let ?g = "[replicate 4 \<lparr>filled = True, color = ''rgb(0, 0, 0)''\<rparr>]"
  have r: "rectangular ?g" by (simp add: rectangular_def)
  have l: "0 < length ?g" by simp
  have e: "(if \<exists>cell \<in> set (?g ! 0). filled cell
            then run_lengths (map filled (?g ! 0)) else [0]) = [4]"
    by (simp add: numeral_eq_Suc)
  show ?thesis using r l row_clues_are_run_lengths[OF r l] unfolding e by blast
qed

text \<open>
  C1 as stated fails on a row without filled cells: the row has no run, so the
  list of its run lengths is empty, and the clue sequence is \<open>[0]\<close>.
\<close>

theorem row_clue_unfilled_counterexample:
  "rectangular [[\<lparr>filled = False, color = ''rgb(255, 255, 255)''\<rparr>]] \<and>
   calculateNumbers [[\<lparr>filled = False, color = ''rgb(255, 255, 255)''\<rparr>]] = Inr ([[0]], [[0]]) \<and>
   run_lengths (map filled ([[\<lparr>filled = False, color = ''rgb(255, 255, 255)''\<rparr>]] ! 0)) = [] \<and>
   [[0::nat]] ! 0 \<noteq> run_lengths (map filled ([[\<lparr>filled = False, color = ''rgb(255, 255, 255)''\<rparr>]] ! 0))"
  by (simp add: rectangular_def calculateNumbers_def rowNums_def rowClue_def colNums_def
      colClue_def finish_def scan_step_def)

text \<open>
  C2. For every non-empty rectangular grid, the sum of each row's clue sequence
  is the number of filled cells of the row, and the sum of each column's clue
  sequence is the number of filled cells of the column (a clue \<open>[0]\<close> sums to 0).
\<close>

theorem clue_totals:
  assumes "rectangular grid"
  shows "\<exists>rs cs. calculateNumbers grid = Inr (rs, cs) \<and>
           length rs = length grid \<and> length cs = length (hd grid) \<and>
           (\<forall>i < length grid. sum_list (rs ! i) = length (filter filled (grid ! i))) \<and>
           (\<forall>j < length (hd grid). sum_list (cs ! j) = length (filter filled (column grid j)))"
proof -
  let ?rs = "map rowClue grid"
  let ?cs = "map (\<lambda>j. rowClue (column grid j)) [0..<length (hd grid)]"
  have c: "calculateNumbers grid = Inr (?rs, ?cs)"
    using assms by (rule calculateNumbers_rectangular)
  have lr: "length ?rs = length grid" by simp
  have lc: "length ?cs = length (hd grid)" by simp
  have r: "\<forall>i < length grid. sum_list (?rs ! i) = length (filter filled (grid ! i))"
    by (simp add: sum_rowClue)
  have k: "\<forall>j < length (hd grid). sum_list (?cs ! j) = length (filter filled (column grid j))"
    by (simp add: sum_rowClue)
  from c lr lc r k show ?thesis by blast
qed

theorem clue_totals_witness:
  "rectangular [[\<lparr>filled = True, color = ''rgb(0, 0, 0)''\<rparr>, \<lparr>filled = False, color = ''rgb(255, 255, 255)''\<rparr>],
                [\<lparr>filled = True, color = ''rgb(0, 0, 0)''\<rparr>, \<lparr>filled = False, color = ''rgb(255, 255, 255)''\<rparr>]] \<and>
   (\<exists>rs cs. calculateNumbers
     [[\<lparr>filled = True, color = ''rgb(0, 0, 0)''\<rparr>, \<lparr>filled = False, color = ''rgb(255, 255, 255)''\<rparr>],
      [\<lparr>filled = True, color = ''rgb(0, 0, 0)''\<rparr>, \<lparr>filled = False, color = ''rgb(255, 255, 255)''\<rparr>]]
     = Inr (rs, cs) \<and> sum_list (rs ! 0) = 1 \<and> sum_list (rs ! 1) = 1 \<and>
       sum_list (cs ! 0) = 2 \<and> sum_list (cs ! 1) = 0)"
proof -
  let ?b = "\<lparr>filled = True, color = ''rgb(0, 0, 0)''\<rparr>"
  let ?w = "\<lparr>filled = False, color = ''rgb(255, 255, 255)''\<rparr>"
  let ?g = "[[?b, ?w], [?b, ?w]]"
  have r: "rectangular ?g" by (simp add: rectangular_def)
  from clue_totals[OF r] obtain rs cs where c: "calculateNumbers ?g = Inr (rs, cs)"
    and sr: "\<forall>i<length ?g. sum_list (rs ! i) = length (filter filled (?g ! i))"
    and sc: "\<forall>j<length (hd ?g). sum_list (cs ! j) = length (filter filled (column ?g j))"
    by blast
  have "sum_list (rs ! 0) = 1" using sr[rule_format, of 0] by simp
  moreover have "sum_list (rs ! 1) = 1" using sr[rule_format, of 1] by simp
  moreover have "sum_list (cs ! 0) = 2" using sc[rule_format, of 0] by (simp add: column_def)
  moreover have "sum_list (cs ! 1) = 0" using sc[rule_format, of 1] by (simp add: column_def)
  ultimately show ?thesis using r c by blast
qed

text \<open>
  C3. For every non-empty rectangular grid, every clue sequence (row or column)
  has at least one element; a line with no filled cell has exactly the clue
  sequence \<open>[0]\<close>, and the clue sequence of a line with a filled cell consists of
  positive numbers.
\<close>

theorem clue_sequences_nonempty:
  assumes "rectangular grid"
  shows "\<exists>rs cs. calculateNumbers grid = Inr (rs, cs) \<and>
           length rs = length grid \<and> length cs = length (hd grid) \<and>
           (\<forall>i < length grid.
              rs ! i \<noteq> [] \<and>
              ((\<forall>cell \<in> set (grid ! i). \<not> filled cell) \<longrightarrow> rs ! i = [0]) \<and>
              ((\<exists>cell \<in> set (grid ! i). filled cell) \<longrightarrow> (\<forall>n \<in> set (rs ! i). 0 < n))) \<and>
           (\<forall>j < length (hd grid).
              cs ! j \<noteq> [] \<and>
              ((\<forall>cell \<in> set (column grid j). \<not> filled cell) \<longrightarrow> cs ! j = [0]) \<and>
              ((\<exists>cell \<in> set (column grid j). filled cell) \<longrightarrow> (\<forall>n \<in> set (cs ! j). 0 < n)))"
proof -
  let ?rs = "map rowClue grid"
  let ?cs = "map (\<lambda>j. rowClue (column grid j)) [0..<length (hd grid)]"
  have c: "calculateNumbers grid = Inr (?rs, ?cs)"
    using assms by (rule calculateNumbers_rectangular)
  have lr: "length ?rs = length grid" by simp
  have lc: "length ?cs = length (hd grid)" by simp
  have line: "rowClue l \<noteq> [] \<and>
        ((\<forall>cell \<in> set l. \<not> filled cell) \<longrightarrow> rowClue l = [0]) \<and>
        ((\<exists>cell \<in> set l. filled cell) \<longrightarrow> (\<forall>n \<in> set (rowClue l). 0 < n))" for l
    using rowClue_nonempty[of l] rowClue_unfilled[of l] rowClue_filled_pos[of l] by blast
  have r: "\<forall>i < length grid.
              ?rs ! i \<noteq> [] \<and>
              ((\<forall>cell \<in> set (grid ! i). \<not> filled cell) \<longrightarrow> ?rs ! i = [0]) \<and>
              ((\<exists>cell \<in> set (grid ! i). filled cell) \<longrightarrow> (\<forall>n \<in> set (?rs ! i). 0 < n))"
  proof (intro allI impI)
    fix i assume "i < length grid"
    then have "?rs ! i = rowClue (grid ! i)" by simp
    then show "?rs ! i \<noteq> [] \<and>
              ((\<forall>cell \<in> set (grid ! i). \<not> filled cell) \<longrightarrow> ?rs ! i = [0]) \<and>
              ((\<exists>cell \<in> set (grid ! i). filled cell) \<longrightarrow> (\<forall>n \<in> set (?rs ! i). 0 < n))"
      using line[of "grid ! i"] by simp
  qed
  have k: "\<forall>j < length (hd grid).
              ?cs ! j \<noteq> [] \<and>
              ((\<forall>cell \<in> set (column grid j). \<not> filled cell) \<longrightarrow> ?cs ! j = [0]) \<and>
              ((\<exists>cell \<in> set (column grid j). filled cell) \<longrightarrow> (\<forall>n \<in> set (?cs ! j). 0 < n))"
  proof (intro allI impI)
    fix j assume "j < length (hd grid)"
    then have "?cs ! j = rowClue (column grid j)" by simp
    then show "?cs ! j \<noteq> [] \<and>
              ((\<forall>cell \<in> set (column grid j). \<not> filled cell) \<longrightarrow> ?cs ! j = [0]) \<and>
              ((\<exists>cell \<in> set (column grid j). filled cell) \<longrightarrow> (\<forall>n \<in> set (?cs ! j). 0 < n))"
      using line[of "column grid j"] by simp
  qed
  from c lr lc r k show ?thesis by blast
qed

text \<open>
  Scenario C: both rows filled at the left cell only. The rows have the clue
  \<open>[1]\<close>, the left column \<open>[2]\<close>, and the right column, which has no filled cell,
  \<open>[0]\<close>.
\<close>

theorem clue_sequences_nonempty_witness:
  "rectangular [[\<lparr>filled = True, color = ''rgb(0, 0, 0)''\<rparr>, \<lparr>filled = False, color = ''rgb(255, 255, 255)''\<rparr>],
                [\<lparr>filled = True, color = ''rgb(0, 0, 0)''\<rparr>, \<lparr>filled = False, color = ''rgb(255, 255, 255)''\<rparr>]] \<and>
   (\<exists>rs cs. calculateNumbers
     [[\<lparr>filled = True, color = ''rgb(0, 0, 0)''\<rparr>, \<lparr>filled = False, color = ''rgb(255, 255, 255)''\<rparr>],
      [\<lparr>filled = True, color = ''rgb(0, 0, 0)''\<rparr>, \<lparr>filled = False, color = ''rgb(255, 255, 255)''\<rparr>]]
     = Inr (rs, cs) \<and> length rs = 2 \<and> length cs = 2 \<and>
       rs ! 0 \<noteq> [] \<and> 0 \<notin> set (rs ! 0) \<and> cs ! 1 = [0])"
proof -
  let ?b = "\<lparr>filled = True, color = ''rgb(0, 0, 0)''\<rparr>"
  let ?w = "\<lparr>filled = False, color = ''rgb(255, 255, 255)''\<rparr>"
  let ?g = "[[?b, ?w], [?b, ?w]]"
  have r: "rectangular ?g" by (simp add: rectangular_def)
  from clue_sequences_nonempty[OF r] obtain rs cs where c: "calculateNumbers ?g = Inr (rs, cs)"
    and lr: "length rs = length ?g" and lc: "length cs = length (hd ?g)"
    and sr: "\<forall>i < length ?g.
              rs ! i \<noteq> [] \<and>
              ((\<forall>cell \<in> set (?g ! i). \<not> filled cell) \<longrightarrow> rs ! i = [0]) \<and>
              ((\<exists>cell \<in> set (?g ! i). filled cell) \<longrightarrow> (\<forall>n \<in> set (rs ! i). 0 < n))"
    and sc: "\<forall>j < length (hd ?g).
              cs ! j \<noteq> [] \<and>
              ((\<forall>cell \<in> set (column ?g j). \<not> filled cell) \<longrightarrow> cs ! j = [0]) \<and>
              ((\<exists>cell \<in> set (column ?g j). filled cell) \<longrightarrow> (\<forall>n \<in> set (cs ! j). 0 < n))"
    by blast
  have "rs ! 0 \<noteq> [] \<and> 0 \<notin> set (rs ! 0)" using sr[rule_format, of 0] by auto
  moreover have "cs ! 1 = [0]" using sc[rule_format, of 1] by (simp add: column_def)
  moreover have "length rs = 2" "length cs = 2" using lr lc by simp_all
  ultimately show ?thesis using r c by blast
qed

text \<open>
  C10. For every non-empty rectangular grid and every line of it (so in
  particular every line with a filled cell), the runs of the clue sequence and
  the one-cell gaps between consecutive runs fit in the line:
  \<open>sum clues + (length clues - 1) \<le> n\<close>, where \<open>n\<close> is the length of the line.
\<close>

theorem clues_fit_in_line:
  assumes "rectangular grid"
  shows "\<exists>rs cs. calculateNumbers grid = Inr (rs, cs) \<and>
           length rs = length grid \<and> length cs = length (hd grid) \<and>
           (\<forall>i < length grid.
              int (sum_list (rs ! i)) + (int (length (rs ! i)) - 1) \<le> int (length (grid ! i))) \<and>
           (\<forall>j < length (hd grid).
              int (sum_list (cs ! j)) + (int (length (cs ! j)) - 1) \<le> int (length grid))"
proof -
  let ?rs = "map rowClue grid"
  let ?cs = "map (\<lambda>j. rowClue (column grid j)) [0..<length (hd grid)]"
  have c: "calculateNumbers grid = Inr (?rs, ?cs)"
    using assms by (rule calculateNumbers_rectangular)
  have lr: "length ?rs = length grid" by simp
  have lc: "length ?cs = length (hd grid)" by simp
  have r: "\<forall>i < length grid.
              int (sum_list (?rs ! i)) + (int (length (?rs ! i)) - 1) \<le> int (length (grid ! i))"
    by (simp add: rowClue_fit)
  have k: "\<forall>j < length (hd grid).
              int (sum_list (?cs ! j)) + (int (length (?cs ! j)) - 1) \<le> int (length grid)"
  proof (intro allI impI)
    fix j assume "j < length (hd grid)"
    then have "?cs ! j = rowClue (column grid j)" by simp
    then show "int (sum_list (?cs ! j)) + (int (length (?cs ! j)) - 1) \<le> int (length grid)"
      using rowClue_fit[of "column grid j"] by (simp add: length_column)
  qed
  from c lr lc r k show ?thesis by blast
qed

text \<open>
  The row filled, unfilled, filled has the clue \<open>[1, 1]\<close>: two runs and one gap
  take the three cells of the line.
\<close>

theorem clues_fit_in_line_witness:
  "rectangular [[\<lparr>filled = True, color = ''rgb(0, 0, 0)''\<rparr>,
                 \<lparr>filled = False, color = ''rgb(255, 255, 255)''\<rparr>,
                 \<lparr>filled = True, color = ''rgb(0, 0, 0)''\<rparr>]] \<and>
   calculateNumbers [[\<lparr>filled = True, color = ''rgb(0, 0, 0)''\<rparr>,
                 \<lparr>filled = False, color = ''rgb(255, 255, 255)''\<rparr>,
                 \<lparr>filled = True, color = ''rgb(0, 0, 0)''\<rparr>]] = Inr ([[1, 1]], [[1], [0], [1]]) \<and>
   (\<exists>rs cs. calculateNumbers [[\<lparr>filled = True, color = ''rgb(0, 0, 0)''\<rparr>,
                 \<lparr>filled = False, color = ''rgb(255, 255, 255)''\<rparr>,
                 \<lparr>filled = True, color = ''rgb(0, 0, 0)''\<rparr>]] = Inr (rs, cs) \<and>
        int (sum_list (rs ! 0)) + (int (length (rs ! 0)) - 1) \<le> 3)"
proof -
  let ?b = "\<lparr>filled = True, color = ''rgb(0, 0, 0)''\<rparr>"
  let ?w = "\<lparr>filled = False, color = ''rgb(255, 255, 255)''\<rparr>"
  let ?g = "[[?b, ?w, ?b]]"
  have r: "rectangular ?g" by (simp add: rectangular_def)
  from clues_fit_in_line[OF r] obtain rs cs where c: "calculateNumbers ?g = Inr (rs, cs)"
    and sr: "\<forall>i < length ?g.
              int (sum_list (rs ! i)) + (int (length (rs ! i)) - 1) \<le> int (length (?g ! i))"
    by blast
  have v: "calculateNumbers ?g = Inr ([[1, 1]], [[1], [0], [1]])"
    by (simp add: calculateNumbers_def rowNums_def rowClue_def colNums_def
      colClue_def finish_def scan_step_def upt_rec)
  have "int (sum_list (rs ! 0)) + (int (length (rs ! 0)) - 1) \<le> 3"
    using sr[rule_format, of 0] by simp
  with r c v show ?thesis by blast
qed

lemma col_scan_filled_cong:
  "map (map filled) g1 = map (map filled) g2 \<Longrightarrow>
   col_scan colIndex len rowIndex g1 st = col_scan colIndex len rowIndex g2 st"
proof (induction g1 arbitrary: g2 rowIndex st)
  case Nil
  then show ?case by simp
next
  case (Cons row1 rest1)
  then obtain row2 rest2 where g2: "g2 = row2 # rest2"
    and row: "map filled row1 = map filled row2"
    and rest: "map (map filled) rest1 = map (map filled) rest2"
    by (cases g2) auto
  from row have len: "length row1 = length row2"
    by (rule map_eq_imp_length_eq)
  have cell: "filled (row1 ! colIndex) = filled (row2 ! colIndex)" if "colIndex < length row1"
    using that row len by (metis nth_map)
  show ?case
    using Cons.IH[OF rest] len cell by (simp add: g2)
qed

lemma rowClue_filled_cong:
  "map filled row1 = map filled row2 \<Longrightarrow> rowClue row1 = rowClue row2"
  by (simp add: rowClue_runs_acc)

lemma rowNums_filled_cong:
  "map (map filled) g1 = map (map filled) g2 \<Longrightarrow> rowNums g1 = rowNums g2"
proof (induction g1 arbitrary: g2)
  case Nil
  then show ?case by (simp add: rowNums_def)
next
  case (Cons row1 rest1)
  then obtain row2 rest2 where g2: "g2 = row2 # rest2"
    and row: "map filled row1 = map filled row2"
    and rest: "map (map filled) rest1 = map (map filled) rest2"
    by (cases g2) auto
  show ?case
    using Cons.IH[OF rest] rowClue_filled_cong[OF row] by (simp add: g2 rowNums_def)
qed

lemma colNums_filled_cong:
  assumes "map (map filled) g1 = map (map filled) g2"
  shows "colNums g1 = colNums g2"
proof (cases g1)
  case Nil
  with assms show ?thesis by simp
next
  case (Cons row1 rest1)
  with assms obtain row2 rest2 where g2: "g2 = row2 # rest2"
    and row: "map filled row1 = map filled row2"
    by (cases g2) auto
  have len: "length g1 = length g2"
    using assms by (rule map_eq_imp_length_eq)
  have "colClue g1 = colClue g2"
    by (rule ext) (simp add: colClue_def len col_scan_filled_cong[OF assms])
  moreover have "length row1 = length row2"
    using row by (rule map_eq_imp_length_eq)
  ultimately show ?thesis by (simp add: colNums_def Cons g2)
qed

text \<open>
  C8. The clue derivation reads the \<open>filled\<close> field only: two grids that agree
  on the \<open>filled\<close> value of every cell (and so have the same dimensions) give the
  same row clues and the same column clues, whatever the colours are. In
  particular this holds for non-empty rectangular grids.
\<close>

theorem clues_ignore_color:
  assumes "map (map filled) g1 = map (map filled) g2"
  shows "calculateNumbers g1 = calculateNumbers g2"
  using rowNums_filled_cong[OF assms] colNums_filled_cong[OF assms]
  by (simp add: calculateNumbers_def)

theorem clues_ignore_color_witness:
  "map (map filled) [[\<lparr>filled = True, color = ''rgb(0, 0, 0)''\<rparr>, \<lparr>filled = False, color = ''rgb(255, 255, 255)''\<rparr>]] =
   map (map filled) [[\<lparr>filled = True, color = ''rgb(90, 20, 3)''\<rparr>, \<lparr>filled = False, color = ''rgb(200, 180, 190)''\<rparr>]] \<and>
   [[\<lparr>filled = True, color = ''rgb(0, 0, 0)''\<rparr>, \<lparr>filled = False, color = ''rgb(255, 255, 255)''\<rparr>]] \<noteq>
   [[\<lparr>filled = True, color = ''rgb(90, 20, 3)''\<rparr>, \<lparr>filled = False, color = ''rgb(200, 180, 190)''\<rparr>]] \<and>
   calculateNumbers [[\<lparr>filled = True, color = ''rgb(0, 0, 0)''\<rparr>, \<lparr>filled = False, color = ''rgb(255, 255, 255)''\<rparr>]] =
   calculateNumbers [[\<lparr>filled = True, color = ''rgb(90, 20, 3)''\<rparr>, \<lparr>filled = False, color = ''rgb(200, 180, 190)''\<rparr>]]"
proof -
  let ?g1 = "[[\<lparr>filled = True, color = ''rgb(0, 0, 0)''\<rparr>, \<lparr>filled = False, color = ''rgb(255, 255, 255)''\<rparr>]]"
  let ?g2 = "[[\<lparr>filled = True, color = ''rgb(90, 20, 3)''\<rparr>, \<lparr>filled = False, color = ''rgb(200, 180, 190)''\<rparr>]]"
  have h: "map (map filled) ?g1 = map (map filled) ?g2" by simp
  have d: "?g1 \<noteq> ?g2" by simp
  from h d clues_ignore_color[OF h] show ?thesis by blast
qed

text \<open>
  C9. On a non-empty rectangular grid no access of the clue deriver is out of
  bounds: neither the read of the first row nor a read \<open>row[colIndex]\<close> raises,
  and the derivation returns the clues, one sequence for each row and one for
  each column. Hence a derivation that raises was given a grid that is empty or
  not rectangular.
\<close>

theorem clue_derivation_total:
  "(rectangular grid \<longrightarrow>
      (\<exists>rs cs. calculateNumbers grid = Inr (rs, cs) \<and>
         length rs = length grid \<and> length cs = length (hd grid))) \<and>
   (calculateNumbers grid = Inl e \<longrightarrow> \<not> rectangular grid)"
proof -
  have "\<exists>rs cs. calculateNumbers grid = Inr (rs, cs) \<and>
         length rs = length grid \<and> length cs = length (hd grid)" if r: "rectangular grid"
  proof -
    let ?rs = "map rowClue grid"
    let ?cs = "map (\<lambda>j. rowClue (column grid j)) [0..<length (hd grid)]"
    have c: "calculateNumbers grid = Inr (?rs, ?cs)"
      using r by (rule calculateNumbers_rectangular)
    have lr: "length ?rs = length grid" by simp
    have lc: "length ?cs = length (hd grid)" by simp
    from c lr lc show ?thesis by blast
  qed
  then show ?thesis by auto
qed

text \<open>
  A rectangular grid of two rows, and two grids outside the precondition on
  which the derivation raises: the empty grid, and a grid whose second row is
  shorter than the first.
\<close>

theorem clue_derivation_total_witness:
  "rectangular [[\<lparr>filled = True, color = ''rgb(0, 0, 0)''\<rparr>], [\<lparr>filled = False, color = ''rgb(255, 255, 255)''\<rparr>]] \<and>
   (\<exists>rs cs. calculateNumbers [[\<lparr>filled = True, color = ''rgb(0, 0, 0)''\<rparr>], [\<lparr>filled = False, color = ''rgb(255, 255, 255)''\<rparr>]] = Inr (rs, cs) \<and>
      length rs = 2 \<and> length cs = 1) \<and>
   calculateNumbers [] = Inl TypeError \<and> \<not> rectangular [] \<and>
   calculateNumbers [[\<lparr>filled = True, color = ''rgb(0, 0, 0)''\<rparr>], []] = Inl TypeError \<and>
   \<not> rectangular [[\<lparr>filled = True, color = ''rgb(0, 0, 0)''\<rparr>], []]"
proof -
  let ?b = "\<lparr>filled = True, color = ''rgb(0, 0, 0)''\<rparr>"
  let ?w = "\<lparr>filled = False, color = ''rgb(255, 255, 255)''\<rparr>"
  have r: "rectangular [[?b], [?w]]" by (simp add: rectangular_def)
  from r clue_derivation_total[of "[[?b], [?w]]" TypeError]
  obtain rs cs where c: "calculateNumbers [[?b], [?w]] = Inr (rs, cs)"
    and lr: "length rs = length [[?b], [?w]]" and lc: "length cs = length (hd [[?b], [?w]])"
    by blast
  have "length rs = 2" "length cs = 1" using lr lc by simp_all
  with c have a: "\<exists>rs cs. calculateNumbers [[?b], [?w]] = Inr (rs, cs) \<and> length rs = 2 \<and> length cs = 1"
    by blast
  have e1: "calculateNumbers [] = Inl TypeError"
    by (simp add: calculateNumbers_def colNums_def)
  have e2: "calculateNumbers [[?b], []] = Inl TypeError"
    by (simp add: calculateNumbers_def colNums_def colClue_def)
  have n1: "\<not> rectangular []"
    using e1 clue_derivation_total[of "[]" TypeError] by blast
  have n2: "\<not> rectangular [[?b], []]"
    using e2 clue_derivation_total[of "[[?b], []]" TypeError] by blast
  from r a e1 e2 n1 n2 show ?thesis by blast
qed

lemma column_upt:
  "map (\<lambda>i. grid ! i ! j) [0..<length grid] = column grid j"
  unfolding column_def by (rule nth_equalityI) simp_all

lemma transpose_rectangular:
  assumes "rectangular grid"
  shows "transpose grid = map (column grid) [0..<length (hd grid)]"
proof -
  have e: "grid = [] \<Longrightarrow> length (hd grid) = 0"
    using assms unfolding rectangular_def by blast
  have l: "\<And>i. i < length grid \<Longrightarrow> length (grid ! i) = length (hd grid)"
    using assms nth_mem unfolding rectangular_def by blast
  have "transpose grid =
      map (\<lambda>j. map (\<lambda>i. grid ! i ! j) [0..<length grid]) [0..<length (hd grid)]"
    using e l by (rule transpose_rectangle)
  also have "\<dots> = map (column grid) [0..<length (hd grid)]"
    by (simp only: column_upt)
  finally show ?thesis .
qed

text \<open>
  C7. For every non-empty rectangular grid, the column clue sequences are the
  row clue sequences of the transposed grid.
\<close>

theorem column_clues_transpose:
  assumes "rectangular grid"
  shows "colNums grid = Inr (rowNums (transpose grid))"
proof -
  have "map (\<lambda>j. rowClue (column grid j)) [0..<length (hd grid)] =
        map rowClue (map (column grid) [0..<length (hd grid)])"
    by (simp add: comp_def)
  also have "\<dots> = rowNums (transpose grid)"
    by (simp only: rowNums_def transpose_rectangular[OF assms])
  finally show ?thesis
    by (simp only: colNums_rectangular[OF assms])
qed

theorem column_clues_transpose_witness:
  "rectangular [[\<lparr>filled = True, color = ''rgb(0, 0, 0)''\<rparr>, \<lparr>filled = False, color = ''rgb(255, 255, 255)''\<rparr>],
                [\<lparr>filled = True, color = ''rgb(0, 0, 0)''\<rparr>, \<lparr>filled = False, color = ''rgb(255, 255, 255)''\<rparr>]] \<and>
   transpose [[\<lparr>filled = True, color = ''rgb(0, 0, 0)''\<rparr>, \<lparr>filled = False, color = ''rgb(255, 255, 255)''\<rparr>],
              [\<lparr>filled = True, color = ''rgb(0, 0, 0)''\<rparr>, \<lparr>filled = False, color = ''rgb(255, 255, 255)''\<rparr>]] =
     [[\<lparr>filled = True, color = ''rgb(0, 0, 0)''\<rparr>, \<lparr>filled = True, color = ''rgb(0, 0, 0)''\<rparr>],
      [\<lparr>filled = False, color = ''rgb(255, 255, 255)''\<rparr>, \<lparr>filled = False, color = ''rgb(255, 255, 255)''\<rparr>]] \<and>
   colNums [[\<lparr>filled = True, color = ''rgb(0, 0, 0)''\<rparr>, \<lparr>filled = False, color = ''rgb(255, 255, 255)''\<rparr>],
            [\<lparr>filled = True, color = ''rgb(0, 0, 0)''\<rparr>, \<lparr>filled = False, color = ''rgb(255, 255, 255)''\<rparr>]] =
     Inr (rowNums [[\<lparr>filled = True, color = ''rgb(0, 0, 0)''\<rparr>, \<lparr>filled = True, color = ''rgb(0, 0, 0)''\<rparr>],
      [\<lparr>filled = False, color = ''rgb(255, 255, 255)''\<rparr>, \<lparr>filled = False, color = ''rgb(255, 255, 255)''\<rparr>]])"
proof -
  let ?b = "\<lparr>filled = True, color = ''rgb(0, 0, 0)''\<rparr>"
  let ?w = "\<lparr>filled = False, color = ''rgb(255, 255, 255)''\<rparr>"
  let ?g = "[[?b, ?w], [?b, ?w]]"
  have r: "rectangular ?g" by (simp add: rectangular_def)
  have t: "transpose ?g = [[?b, ?b], [?w, ?w]]" by (simp add: transpose.simps)
  from r t column_clues_transpose[OF r] show ?thesis by simp
qed

section \<open>The quantizer\<close>

lemma generateNonogram_grid:
  "generateNonogram (Some d) ncols nrows =
     Some (map (\<lambda>y. map (\<lambda>x. pixel_cell d ((y * ncols + x) * 4)) [0..<ncols]) [0..<nrows],
           calculateNumbers
             (map (\<lambda>y. map (\<lambda>x. pixel_cell d ((y * ncols + x) * 4)) [0..<ncols]) [0..<nrows]))"
  by (simp only: generateNonogram_def grid_eq Let_def option.case)

lemma brightness_in_range:
  "i + 2 < length d \<Longrightarrow>
   brightness d i =
     Some ((real (unat (d ! i)) + real (unat (d ! (i + 1))) + real (unat (d ! (i + 2)))) / 3)"
  by (simp add: brightness_def data_at_def)

lemma pixel_index_in_range:
  assumes "(y::nat) < nrows" and "(x::nat) < ncols"
  shows "(y * ncols + x) * 4 + 3 < 4 * ncols * nrows"
proof -
  have "y * ncols + x < Suc y * ncols" using assms(2) by simp
  also have "\<dots> \<le> nrows * ncols" using assms(1) by (simp add: Suc_leI mult_le_mono1 del: mult_Suc)
  finally have "y * ncols + x + 1 \<le> nrows * ncols" by simp
  then have "(y * ncols + x + 1) * 4 \<le> nrows * ncols * 4" by (rule mult_le_mono1)
  then show ?thesis by (simp add: algebra_simps)
qed

text \<open>
  C4. For all \<open>columns\<close> and \<open>rows\<close> in [5, 50] and every content of the canvas
  (so for every image drawn to it), the quantizer produces a grid with exactly
  \<open>rows\<close> rows of exactly \<open>columns\<close> cells each, in row-major order: the cell at
  row \<open>y\<close>, column \<open>x\<close> is the one computed from the pixel number
  \<open>y * columns + x\<close> of the canvas.
\<close>

theorem quantize_dimensions:
  assumes "5 \<le> ncols" and "ncols \<le> 50" and "5 \<le> nrows" and "nrows \<le> 50"
  shows "\<exists>grid r. generateNonogram (Some d) ncols nrows = Some (grid, r) \<and>
           length grid = nrows \<and>
           (\<forall>row \<in> set grid. length row = ncols) \<and>
           (\<forall>y < nrows. \<forall>x < ncols. grid ! y ! x = pixel_cell d ((y * ncols + x) * 4))"
proof -
  let ?grid = "map (\<lambda>y. map (\<lambda>x. pixel_cell d ((y * ncols + x) * 4)) [0..<ncols]) [0..<nrows]"
  have g: "generateNonogram (Some d) ncols nrows = Some (?grid, calculateNumbers ?grid)"
    by (rule generateNonogram_grid)
  have l: "length ?grid = nrows" by simp
  have r: "\<forall>row \<in> set ?grid. length row = ncols" by auto
  have c: "\<forall>y < nrows. \<forall>x < ncols. ?grid ! y ! x = pixel_cell d ((y * ncols + x) * 4)"
    by simp
  from g l r c show ?thesis by blast
qed

text \<open>
  Scenario B on a 5 by 5 grid: a canvas that is white throughout (every byte
  255).
\<close>

theorem quantize_dimensions_witness:
  "(5::nat) \<le> 5 \<and> (5::nat) \<le> 50 \<and>
   (\<exists>grid r. generateNonogram (Some (replicate 100 255)) 5 5 = Some (grid, r) \<and>
      length grid = 5 \<and> length (grid ! 0) = 5 \<and> length (grid ! 4) = 5 \<and>
      grid ! 4 ! 4 = \<lparr>filled = False, color = ''rgb(255, 255, 255)''\<rparr>)"
proof -
  have a: "(5::nat) \<le> 5" and b: "(5::nat) \<le> 50" by simp_all
  from quantize_dimensions[OF a b a b, of "replicate 100 255"]
  obtain grid r where g: "generateNonogram (Some (replicate 100 255)) 5 5 = Some (grid, r)"
    and l: "length grid = 5" and w: "\<forall>row \<in> set grid. length row = 5"
    and c: "\<forall>y < 5. \<forall>x < 5. grid ! y ! x = pixel_cell (replicate 100 255) ((y * 5 + x) * 4)"
    by blast
  have "pixel_cell (replicate 100 255) ((4 * 5 + 4) * 4) =
          \<lparr>filled = False, color = ''rgb(255, 255, 255)''\<rparr>"
    by (simp add: pixel_cell_def brightness_def data_at_def below_128_def template_value_def
        decimal.simps)
  with c have v: "grid ! 4 ! 4 = \<lparr>filled = False, color = ''rgb(255, 255, 255)''\<rparr>"
    by simp
  have "length (grid ! 0) = 5" "length (grid ! 4) = 5"
    using w l by simp_all
  with g l v a b show ?thesis by blast
qed

text \<open>
  C5. For all \<open>columns\<close> and \<open>rows\<close> in [5, 50], a canvas of that size, and every
  cell (\<open>x\<close>, \<open>y\<close>) of the grid: with \<open>i = (y * columns + x) * 4\<close> the index of
  the sampled pixel, the brightness is the unweighted average
  \<open>(data[i] + data[i + 1] + data[i + 2]) / 3\<close>, the cell is filled exactly when
  the brightness is strictly less than 128 (that is, when the three bytes sum to
  less than 384), and so a cell of brightness exactly 128 is not filled.
\<close>

theorem brightness_threshold:
  assumes "5 \<le> ncols" and "ncols \<le> 50" and "5 \<le> nrows" and "nrows \<le> 50"
    and "length d = 4 * ncols * nrows"
    and "y < nrows" and "x < ncols"
    and "i = (y * ncols + x) * 4"
    and "avg = (real (unat (d ! i)) + real (unat (d ! (i + 1))) + real (unat (d ! (i + 2)))) / 3"
  shows "\<exists>grid r. generateNonogram (Some d) ncols nrows = Some (grid, r) \<and>
           brightness d i = Some avg \<and>
           (filled (grid ! y ! x) \<longleftrightarrow> avg < 128) \<and>
           (filled (grid ! y ! x) \<longleftrightarrow>
              unat (d ! i) + unat (d ! (i + 1)) + unat (d ! (i + 2)) < 384) \<and>
           (avg = 128 \<longrightarrow> \<not> filled (grid ! y ! x))"
proof -
  let ?grid = "map (\<lambda>y. map (\<lambda>x. pixel_cell d ((y * ncols + x) * 4)) [0..<ncols]) [0..<nrows]"
  have g: "generateNonogram (Some d) ncols nrows = Some (?grid, calculateNumbers ?grid)"
    by (rule generateNonogram_grid)
  have "i + 3 < length d"
    using pixel_index_in_range[OF assms(6,7)] assms(5,8) by simp
  then have b: "brightness d i = Some avg"
    using brightness_in_range[of i d] assms(9) by simp
  have "?grid ! y ! x = pixel_cell d i"
    using assms(6,7,8) by simp
  then have f: "filled (?grid ! y ! x) \<longleftrightarrow> avg < 128"
    using b by (simp add: pixel_cell_def below_128_def)
  then have n: "avg = 128 \<longrightarrow> \<not> filled (?grid ! y ! x)" by simp
  define total where "total = unat (d ! i) + unat (d ! (i + 1)) + unat (d ! (i + 2))"
  have "avg * 3 = real total"
    using assms(9) by (simp add: total_def)
  moreover have "avg < 128 \<longleftrightarrow> avg * 3 < 384" by arith
  ultimately have "avg < 128 \<longleftrightarrow> real total < real 384" by simp
  also have "\<dots> \<longleftrightarrow> total < 384" by (rule of_nat_less_iff)
  finally have s: "filled (?grid ! y ! x) \<longleftrightarrow>
      unat (d ! i) + unat (d ! (i + 1)) + unat (d ! (i + 2)) < 384"
    using f by (simp add: total_def)
  from g b f s n show ?thesis by blast
qed

text \<open>
  A 5 by 5 canvas of mid grey (every byte 128): the brightness of the first cell
  is exactly 128, and the cell is not filled.
\<close>

theorem brightness_threshold_witness:
  "(5::nat) \<le> 5 \<and> (5::nat) \<le> 50 \<and> length (replicate 100 (128::8 word)) = 4 * 5 * 5 \<and>
   (0::nat) < 5 \<and>
   (\<exists>grid r. generateNonogram (Some (replicate 100 128)) 5 5 = Some (grid, r) \<and>
      brightness (replicate 100 128) 0 = Some 128 \<and> \<not> filled (grid ! 0 ! 0))"
proof -
  have a: "(5::nat) \<le> 5" and b: "(5::nat) \<le> 50" and z: "(0::nat) < 5" by simp_all
  have l: "length (replicate 100 (128::8 word)) = 4 * 5 * 5" by simp
  have i: "(0::nat) = (0 * 5 + 0) * 4" by simp
  have v: "(128::real) =
      (real (unat (replicate 100 (128::8 word) ! 0)) +
       real (unat (replicate 100 (128::8 word) ! (0 + 1))) +
       real (unat (replicate 100 (128::8 word) ! (0 + 2)))) / 3"
    by simp
  from brightness_threshold[OF a b a b l z z i v] a b l z show ?thesis by auto
qed

section \<open>The range of the dimensions\<close>

lemma initial_in_range: "in_range (columns initial) \<and> in_range (rows initial)"
  by (simp add: initial_def in_range_def)

lemma columns_onChange_in_range:
  "in_range (columns st) \<Longrightarrow> in_range (columns (columns_onChange st v))"
  by (auto simp: columns_onChange_def in_range_def split: option.splits)

lemma rows_onChange_in_range:
  "in_range (rows st) \<Longrightarrow> in_range (rows (rows_onChange st v))"
  by (auto simp: rows_onChange_def in_range_def split: option.splits)

text \<open>
  C6 does not hold of the upload path. The two \<open>onChange\<close> handlers clamp (the
  lemmas above), but the first upload sets \<^verbatim>\<open>rows\<close> to the rounded product of
  \<^verbatim>\<open>columns\<close> and the aspect ratio without clamping it: an image 100 wide and
  1000 high, uploaded in the initial state, sets \<^verbatim>\<open>rows\<close> to 150, and the
  quantization that follows runs with 15 columns and 150 rows.
\<close>

theorem first_upload_rows_unclamped:
  "rows (handleImageUpload initial ''data:image/png;base64'' 100 1000) = Num 150 \<and>
   effect_dimensions (handleImageUpload initial ''data:image/png;base64'' 100 1000) =
     Some (Num 15, Num 150) \<and>
   in_range (Num 150) = False"
  by (simp add: handleImageUpload_def initial_def aspect_rows_def effect_dimensions_def
      in_range_def)

end
